theory Spec2Isabelle
  imports Main "HOL-Library.Word" "HOL-Library.Multiset" "HOL-Library.Sublist"
begin

unbundle bit_operations_syntax

section \<open>Source maps: compiler/compiled_method.h\<close>

subsection \<open>SrcMapElem\<close>

text \<open>
  \<^verbatim>\<open>class SrcMapElem { uint32_t from_; int32_t to_; ... }\<close>.
  Both fields are 32-bit words; \<open>to'\<close> is the signed one and is read with \<^const>\<open>sint\<close>.
  (An Isabelle name cannot end in an underscore, hence the primes.)
\<close>

record SrcMapElem =
  from' :: "32 word"
  to' :: "32 word"

type_synonym SrcMap = "SrcMapElem list"

text \<open>
  \<^verbatim>\<open>explicit operator int64_t() const { return (static_cast<int64_t>(to_) << 32) | from_; }\<close>
  The signed line is sign-extended to 64 bits and shifted, the unsigned offset is
  zero-extended. (The shift of a negative value is taken as the two's complement shift
  every supported compiler performs.)
\<close>

definition int64_t :: "SrcMapElem \<Rightarrow> 64 word" where
  "int64_t e = push_bit 32 (scast (to' e)) OR ucast (from' e)"

text \<open>\<^verbatim>\<open>operator<\<close> and \<^verbatim>\<open>operator==\<close> compare the signed 64-bit values.\<close>

definition operator_less :: "SrcMapElem \<Rightarrow> SrcMapElem \<Rightarrow> bool" where
  "operator_less e sme = (int64_t e <s int64_t sme)"

definition operator_eq :: "SrcMapElem \<Rightarrow> SrcMapElem \<Rightarrow> bool" where
  "operator_eq e sme = (int64_t e = int64_t sme)"

subsection \<open>The standard algorithms the class calls\<close>

text \<open>
  \<^verbatim>\<open>std::sort\<close> belongs to the C++ library, and the order it gives to elements that the
  comparison does not separate is left open by the standard. The operations below
  therefore take the sort as a parameter; what the standard promises for one comparison
  is \<open>std_sort_ensures\<close>: the result is a rearrangement of the input in which no later
  element is less than an earlier one.
\<close>

type_synonym sorter = "(SrcMapElem \<Rightarrow> SrcMapElem \<Rightarrow> bool) \<Rightarrow> SrcMap \<Rightarrow> SrcMap"

definition std_sort_ensures :: "sorter \<Rightarrow> (SrcMapElem \<Rightarrow> SrcMapElem \<Rightarrow> bool) \<Rightarrow> bool" where
  "std_sort_ensures std_sort cmp =
     (\<forall>xs. mset (std_sort cmp xs) = mset xs \<and> sorted_wrt (\<lambda>a b. \<not> cmp b a) (std_sort cmp xs))"

text \<open>One sort that runs, to evaluate the operations on concrete maps: insertion sort.\<close>

fun insert_sorted :: "('a \<Rightarrow> 'a \<Rightarrow> bool) \<Rightarrow> 'a \<Rightarrow> 'a list \<Rightarrow> 'a list" where
  "insert_sorted cmp x [] = [x]"
| "insert_sorted cmp x (y # ys) =
     (if cmp x y then x # y # ys else y # insert_sorted cmp x ys)"

definition insertion_sort :: "('a \<Rightarrow> 'a \<Rightarrow> bool) \<Rightarrow> 'a list \<Rightarrow> 'a list" where
  "insertion_sort cmp xs = foldr (insert_sorted cmp) xs []"

text \<open>
  \<^verbatim>\<open>std::unique(begin(), end())\<close> keeps the first element of every run of consecutive
  equal elements; the function returns the kept range, to which \<open>Arrange\<close> resizes.
\<close>

fun std_unique :: "('a \<Rightarrow> 'a \<Rightarrow> bool) \<Rightarrow> 'a list \<Rightarrow> 'a list" where
  "std_unique eq [] = []"
| "std_unique eq [x] = [x]"
| "std_unique eq (x # y # xs) =
     (if eq x y then std_unique eq (x # xs) else x # std_unique eq (y # xs))"

text \<open>\<^verbatim>\<open>std::vector::resize(n)\<close>: cut to \<open>n\<close> elements, or fill up with zeroed ones.\<close>

definition resize :: "nat \<Rightarrow> SrcMap \<Rightarrow> SrcMap" where
  "resize n xs = take n xs @ replicate (n - length xs) \<lparr>from' = 0, to' = 0\<rparr>"

subsection \<open>SrcMap\<close>

datatype error = DCHECK_failed | LOG_FATAL string

text \<open>
  \<^verbatim>\<open>void SortByFrom() { std::sort(begin(), end(), [] (lhs, rhs) { return lhs.from_ < rhs.from_; }); }\<close>
\<close>

definition SortByFrom :: "sorter \<Rightarrow> SrcMap \<Rightarrow> SrcMap" where
  "SortByFrom std_sort xs = std_sort (\<lambda>lhs rhs. from' lhs < from' rhs) xs"

text \<open>
  \<^verbatim>\<open>SrcMap& Arrange() { if (!empty()) { std::sort(begin(), end());
      resize(std::unique(begin(), end()) - begin()); shrink_to_fit(); } return *this; }\<close>
  \<^verbatim>\<open>shrink_to_fit\<close> changes the capacity only.
\<close>

definition Arrange :: "sorter \<Rightarrow> SrcMap \<Rightarrow> SrcMap" where
  "Arrange std_sort xs =
     (if xs \<noteq> [] then
        let arranged = std_sort operator_less xs;
            kept = std_unique operator_eq arranged
        in resize (length kept) kept
      else xs)"

text \<open>
  The first loop of \<open>DeltaFormat\<close>:
  \<^verbatim>\<open>size_t i = size() - 1; for (; i > 0 ; i--) { if ((*this)[i].from_ < highest_pc) break; }\<close>
  \<open>highest_scan highest_pc xs i\<close> is the value of \<open>i\<close> when the loop is left.
\<close>

fun highest_scan :: "32 word \<Rightarrow> SrcMap \<Rightarrow> nat \<Rightarrow> nat" where
  "highest_scan highest_pc xs 0 = 0"
| "highest_scan highest_pc xs (Suc j) =
     (if from' (xs ! Suc j) < highest_pc then Suc j else highest_scan highest_pc xs j)"

text \<open>The loop followed by \<^verbatim>\<open>this->resize(i + 1)\<close>, on a non-empty vector.\<close>

definition drop_highest :: "32 word \<Rightarrow> SrcMap \<Rightarrow> SrcMap" where
  "drop_highest highest_pc xs = resize (highest_scan highest_pc xs (length xs - 1) + 1) xs"

text \<open>
  The second loop:
  \<^verbatim>\<open>for (i = size(); --i >= 1; ) { (*this)[i].from_ -= (*this)[i-1].from_;
                                   (*this)[i].to_ -= (*this)[i-1].to_; }\<close>
  \<open>delta_loop i xs\<close> runs it from index \<open>i\<close> downwards. The subtractions are 32-bit.
\<close>

fun delta_loop :: "nat \<Rightarrow> SrcMap \<Rightarrow> SrcMap" where
  "delta_loop 0 xs = xs"
| "delta_loop (Suc j) xs =
     delta_loop j (xs[Suc j := \<lparr>from' = from' (xs ! Suc j) - from' (xs ! j),
                               to' = to' (xs ! Suc j) - to' (xs ! j)\<rparr>])"

text \<open>
  \<open>DeltaFormat\<close> itself. \<^verbatim>\<open>DCHECK\<close> is a macro of base/logging.h: it aborts when its
  condition fails in a build with checks enabled, and does nothing otherwise; the
  build's choice is the parameter \<open>kEnableDChecks\<close>.
\<close>

definition DeltaFormat ::
  "sorter \<Rightarrow> bool \<Rightarrow> SrcMapElem \<Rightarrow> 32 word \<Rightarrow> SrcMap \<Rightarrow> error + SrcMap" where
  "DeltaFormat std_sort kEnableDChecks start highest_pc xs =
     (if xs \<noteq> [] then
        let by_from = SortByFrom std_sort xs;
            kept = drop_highest highest_pc by_from;
            ds = delta_loop (length kept - 1) kept
        in if kEnableDChecks \<and> \<not> (from' (ds ! 0) \<ge> from' start) then Inl DCHECK_failed
           else Inr (ds[0 := \<lparr>from' = from' (ds ! 0) - from' start,
                               to' = to' (ds ! 0) - to' start\<rparr>])
      else Inr xs)"

text \<open>
  The inverse the specification asks for, in its words: prefix-summing from \<open>start\<close>
  adds \<open>start\<close>'s offset and line to the first entry, then each predecessor's
  reconstructed values to each subsequent entry.
\<close>

fun prefix_sum :: "SrcMapElem \<Rightarrow> SrcMap \<Rightarrow> SrcMap" where
  "prefix_sum prev [] = []"
| "prefix_sum prev (d # ds) =
     (let e = \<lparr>from' = from' prev + from' d, to' = to' prev + to' d\<rparr>
      in e # prefix_sum e ds)"

section \<open>The optimizing compiler: compiler/optimizing/optimizing_compiler.cc\<close>

subsection \<open>Data\<close>

text \<open>
  instruction_set.h is not among the sources. \<open>TryCompile\<close> names four enumerators of
  \<^verbatim>\<open>enum InstructionSet\<close>; every other enumerator is a \<open>kOtherInstructionSet\<close>.
\<close>

datatype InstructionSet = kArm | kThumb2 | kX86 | kX86_64 | kOtherInstructionSet nat

text \<open>The seven arguments of \<open>Compile\<close> and \<open>TryCompile\<close>; pointers and handles are numbers.\<close>

record CompileArgs =
  code_item :: nat
  access_flags :: "32 word"
  invoke_type :: nat
  class_def_idx :: "16 word"
  method_idx :: "32 word"
  class_loader :: nat
  dex_file :: nat

text \<open>
  The members of \<^verbatim>\<open>CompiledCode\<close> and \<^verbatim>\<open>CompiledMethod\<close> that the non-LLVM constructor
  fills, under their names (without the trailing underscore).
\<close>

record CompiledMethod =
  instruction_set :: InstructionSet
  quick_code :: "8 word list"
  frame_size_in_bytes :: nat
  core_spill_mask :: "32 word"
  fp_spill_mask :: "32 word"
  src_mapping_table :: SrcMap
  mapping_table :: "8 word list"
  vmap_table :: "8 word list"
  gc_map :: "8 word list"
  cfi_info :: "8 word list"

definition GetInstructionSet :: "CompiledMethod \<Rightarrow> InstructionSet" where
  "GetInstructionSet m = instruction_set m"

definition GetFrameSizeInBytes :: "CompiledMethod \<Rightarrow> nat" where
  "GetFrameSizeInBytes m = frame_size_in_bytes m"

definition GetCoreSpillMask :: "CompiledMethod \<Rightarrow> 32 word" where
  "GetCoreSpillMask m = core_spill_mask m"

definition GetFpSpillMask :: "CompiledMethod \<Rightarrow> 32 word" where
  "GetFpSpillMask m = fp_spill_mask m"

text \<open>
  Modelled from the spec: \<^verbatim>\<open>CompiledMethod::SwapAllocCompiledMethod\<close> and the constructor
  it calls are defined in compiled_method.cc, which is not among the sources. The
  compiled-method record holds the instruction-set tag, the code bytes, the frame size,
  the two spill masks and the encoded tables it is given; for the source map the packager
  invokes \<open>Arrange\<close> (section 4.9).
\<close>

definition SwapAllocCompiledMethod ::
  "sorter \<Rightarrow> InstructionSet \<Rightarrow> 8 word list \<Rightarrow> nat \<Rightarrow> 32 word \<Rightarrow> 32 word \<Rightarrow> SrcMap \<Rightarrow>
   8 word list \<Rightarrow> 8 word list \<Rightarrow> 8 word list \<Rightarrow> 8 word list \<Rightarrow> CompiledMethod" where
  "SwapAllocCompiledMethod std_sort isa code frame_size core_mask fp_mask src_map
       mapping vmap native_gc_map cfi =
     \<lparr>instruction_set = isa, quick_code = code, frame_size_in_bytes = frame_size,
      core_spill_mask = core_mask, fp_spill_mask = fp_mask,
      src_mapping_table = Arrange std_sort src_map,
      mapping_table = mapping, vmap_table = vmap, gc_map = native_gc_map, cfi_info = cfi\<rparr>"

subsection \<open>The stages and the collaborators\<close>

text \<open>
  Everything \<open>TryCompile\<close> and \<open>Compile\<close> set in motion, in the order of the calls: the
  pipeline is recorded as the list of the stages it ran.
\<close>

datatype PassName = builder | ssa | kLivenessPassName | kRegisterAllocatorPassName

datatype Stage =
    BuildGraph
  | CodeGenerator_Create InstructionSet
  | DumpGraph PassName
  | BuildDominatorTree
  | TransformToSSA
  | FindNaturalLoops
  | SsaRedundantPhiElimination
  | SsaDeadPhiElimination
  | SsaLivenessAnalysis
  | AllocateRegisters
  | CompileOptimized
  | CompileBaseline
  | BuildMappingTable
  | BuildVMapTable
  | BuildNativeGCMap
  | delegate_Compile CompileArgs

text \<open>
  The classes behind the stages (builder, graph, code generator, liveness, register
  allocator, driver, delegate) are declared in headers that are not among the sources, so
  they are parameters. \<open>'s\<close> is what the arena of one compilation holds: the graph, the
  code generator and the code buffer. \<open>run\<close> is the effect of a stage on it.

  Modelled from the spec: \<open>codegen_FpSpillMask\<close> is the code generator's callee-save
  spill bitmask for floating-point registers (section 4.8). No call in
  optimizing_compiler.cc reads it.
\<close>

record 's Collaborators =
  driver_GetInstructionSet :: InstructionSet
  GetIncludeDebugSymbols :: bool
  GetSymbol :: "CompileArgs \<Rightarrow> string"
  builder_BuildGraph :: "CompileArgs \<Rightarrow> 's option"
  CodeGenerator_Create_result :: "'s \<Rightarrow> InstructionSet \<Rightarrow> 's option"
  CanAllocateRegistersFor :: "'s \<Rightarrow> InstructionSet \<Rightarrow> bool"
  Supports :: "InstructionSet \<Rightarrow> bool"
  run :: "Stage \<Rightarrow> 's \<Rightarrow> 's"
  allocator_GetMemory :: "'s \<Rightarrow> 8 word list"
  codegen_GetFrameSize :: "'s \<Rightarrow> nat"
  codegen_GetCoreSpillMask :: "'s \<Rightarrow> 32 word"
  codegen_FpSpillMask :: "'s \<Rightarrow> 32 word"
  codegen_BuildMappingTable :: "'s \<Rightarrow> bool \<Rightarrow> 8 word list \<times> SrcMap"
  codegen_BuildVMapTable :: "'s \<Rightarrow> 8 word list"
  codegen_BuildNativeGCMap :: "'s \<Rightarrow> 8 word list"
  delegate_Compile_result :: "CompileArgs \<Rightarrow> CompiledMethod option"

text \<open>\<^verbatim>\<open>symbol.find(marker) != std::string::npos\<close>\<close>

fun find_not_npos :: "string \<Rightarrow> string \<Rightarrow> bool" where
  "find_not_npos [] marker = (marker = [])"
| "find_not_npos (c # cs) marker = (prefix marker (c # cs) \<or> find_not_npos cs marker)"

subsection \<open>TryCompile\<close>

text \<open>The stages of the first branch (lines 226 to 242), in order.\<close>

definition optimized_stages :: "Stage list" where
  "optimized_stages =
     [BuildDominatorTree, TransformToSSA, DumpGraph ssa, FindNaturalLoops,
      SsaRedundantPhiElimination, SsaDeadPhiElimination,
      SsaLivenessAnalysis, DumpGraph kLivenessPassName,
      AllocateRegisters, DumpGraph kRegisterAllocatorPassName,
      CompileOptimized]"

text \<open>The stages of the last branch (lines 246 to 255), in order.\<close>

definition baseline_stages :: "Stage list" where
  "baseline_stages =
     [CompileBaseline,
      BuildDominatorTree, TransformToSSA, DumpGraph ssa, FindNaturalLoops,
      SsaLivenessAnalysis, DumpGraph kLivenessPassName]"

text \<open>Lines 258 to 278: the tables and the compiled-method record.\<close>

definition package :: "sorter \<Rightarrow> 's Collaborators \<Rightarrow> InstructionSet \<Rightarrow> 's \<Rightarrow> CompiledMethod" where
  "package std_sort env isa s =
     (let (mapping, src) = codegen_BuildMappingTable env s (GetIncludeDebugSymbols env);
          src_map = (if GetIncludeDebugSymbols env then src else []);
          vmap = codegen_BuildVMapTable env s;
          native_gc_map = codegen_BuildNativeGCMap env s
      in SwapAllocCompiledMethod std_sort isa (allocator_GetMemory env s)
           (codegen_GetFrameSize env s) (codegen_GetCoreSpillMask env s) 0
           src_map mapping vmap native_gc_map [])"

text \<open>
  \<open>TryCompile\<close> returns what the C++ function returns (\<open>Inr None\<close> is \<^verbatim>\<open>nullptr\<close>), or
  \<open>Inl\<close> when \<^verbatim>\<open>LOG(FATAL)\<close> aborts the process, together with the stages that ran.
\<close>

definition TryCompile ::
  "sorter \<Rightarrow> 's Collaborators \<Rightarrow> CompileArgs \<Rightarrow> (error + CompiledMethod option) \<times> Stage list" where
  "TryCompile std_sort env args =
     (let isa = (if driver_GetInstructionSet env = kArm then kThumb2
                 else driver_GetInstructionSet env)
      in if isa \<noteq> kX86 \<and> isa \<noteq> kX86_64 \<and> isa \<noteq> kThumb2 then (Inr None, [])
         else
           let shouldCompile = find_not_npos (GetSymbol env args) ''00024opt_00024'';
               shouldOptimize = find_not_npos (GetSymbol env args) ''00024reg_00024''
           in case builder_BuildGraph env args of
                None \<Rightarrow>
                  (if shouldCompile
                   then Inl (LOG_FATAL ''Could not build graph in optimizing compiler'')
                   else Inr None,
                   [BuildGraph])
              | Some graph \<Rightarrow>
                 (case CodeGenerator_Create_result env graph isa of
                    None \<Rightarrow>
                      (if shouldCompile
                       then Inl (LOG_FATAL ''Could not find code generator for optimizing compiler'')
                       else Inr None,
                       [BuildGraph, CodeGenerator_Create isa])
                  | Some codegen \<Rightarrow>
                     (let s = run env (DumpGraph builder) codegen;
                          before = [BuildGraph, CodeGenerator_Create isa, DumpGraph builder];
                          after = [BuildMappingTable, BuildVMapTable, BuildNativeGCMap]
                      in if CanAllocateRegistersFor env s isa then
                           (Inr (Some (package std_sort env isa (fold (run env) optimized_stages s))),
                            before @ optimized_stages @ after)
                         else if shouldOptimize \<and> Supports env isa then
                           (Inl (LOG_FATAL ''Could not allocate registers in optimizing compiler''),
                            before)
                         else
                           (Inr (Some (package std_sort env isa (fold (run env) baseline_stages s))),
                            before @ baseline_stages @ after))))"

subsection \<open>Compile\<close>

definition Compile ::
  "sorter \<Rightarrow> 's Collaborators \<Rightarrow> CompileArgs \<Rightarrow> (error + CompiledMethod option) \<times> Stage list" where
  "Compile std_sort env args =
     (case TryCompile std_sort env args of
        (Inl abort, stages) \<Rightarrow> (Inl abort, stages)
      | (Inr (Some method), stages) \<Rightarrow> (Inr (Some method), stages)
      | (Inr None, stages) \<Rightarrow>
          (Inr (delegate_Compile_result env args), stages @ [delegate_Compile args]))"

subsection \<open>A sample configuration\<close>

text \<open>
  Concrete collaborators on which the pipeline can be run: the arena state counts the
  stages that changed it, the graph builder and the code generator factory succeed, and
  the driver's instruction set, the answer of the register allocator's capability check,
  the method's symbol and the delegate's result are chosen by the caller.
\<close>

definition sample_args :: CompileArgs where
  "sample_args = \<lparr>code_item = 1, access_flags = 9, invoke_type = 0, class_def_idx = 0,
                   method_idx = 3, class_loader = 0, dex_file = 2\<rparr>"

definition sample_collaborators ::
  "InstructionSet \<Rightarrow> bool \<Rightarrow> string \<Rightarrow> CompiledMethod option \<Rightarrow> nat Collaborators" where
  "sample_collaborators isa can_allocate symbol delegate_result =
     \<lparr>driver_GetInstructionSet = isa,
      GetIncludeDebugSymbols = False,
      GetSymbol = (\<lambda>args. symbol),
      builder_BuildGraph = (\<lambda>args. Some 0),
      CodeGenerator_Create_result = (\<lambda>graph target. Some graph),
      CanAllocateRegistersFor = (\<lambda>graph target. can_allocate),
      Supports = (\<lambda>target. can_allocate),
      run = (\<lambda>stage s. Suc s),
      allocator_GetMemory = (\<lambda>s. [195]),
      codegen_GetFrameSize = (\<lambda>s. 16 + s),
      codegen_GetCoreSpillMask = (\<lambda>s. 32),
      codegen_FpSpillMask = (\<lambda>s. 3),
      codegen_BuildMappingTable = (\<lambda>s debug. ([], [])),
      codegen_BuildVMapTable = (\<lambda>s. []),
      codegen_BuildNativeGCMap = (\<lambda>s. []),
      delegate_Compile_result = (\<lambda>args. delegate_result)\<rparr>"

definition sample_method :: "InstructionSet \<Rightarrow> nat \<Rightarrow> CompiledMethod" where
  "sample_method isa s =
     \<lparr>instruction_set = isa, quick_code = [195], frame_size_in_bytes = 16 + s,
      core_spill_mask = 32, fp_spill_mask = 0, src_mapping_table = [],
      mapping_table = [], vmap_table = [], gc_map = [], cfi_info = []\<rparr>"

section \<open>Properties of the source map\<close>

lemma insertion_sort_Nil [simp]: "insertion_sort cmp [] = []"
  by (simp add: insertion_sort_def)

lemma insertion_sort_Cons [simp]:
  "insertion_sort cmp (x # xs) = insert_sorted cmp x (insertion_sort cmp xs)"
  by (simp add: insertion_sort_def)

lemma mset_insert_sorted: "mset (insert_sorted cmp x ys) = add_mset x (mset ys)"
  by (induction ys) simp_all

lemma mset_insertion_sort: "mset (insertion_sort cmp xs) = mset xs"
  by (induction xs) (simp_all add: mset_insert_sorted)

lemma set_insert_sorted: "set (insert_sorted cmp x ys) = insert x (set ys)"
  by (induction ys) auto

lemma sorted_insert_sorted:
  fixes f :: "'a \<Rightarrow> 'k::linorder"
  assumes "sorted_wrt (\<lambda>a b. \<not> f b < f a) ys"
  shows "sorted_wrt (\<lambda>a b. \<not> f b < f a) (insert_sorted (\<lambda>a b. f a < f b) x ys)"
  using assms
  by (induction ys) (auto simp add: set_insert_sorted)

lemma sorted_insertion_sort:
  fixes f :: "'a \<Rightarrow> 'k::linorder"
  shows "sorted_wrt (\<lambda>a b. \<not> f b < f a) (insertion_sort (\<lambda>a b. f a < f b) xs)"
  by (induction xs) (simp_all add: sorted_insert_sorted)

lemma insertion_sort_by_from:
  "std_sort_ensures insertion_sort (\<lambda>lhs rhs. from' lhs < from' rhs)"
  unfolding std_sort_ensures_def
  by (simp add: mset_insertion_sort sorted_insertion_sort)

lemma operator_less_sint: "operator_less = (\<lambda>a b. sint (int64_t a) < sint (int64_t b))"
  by (simp add: operator_less_def fun_eq_iff word_sless_alt)

lemma insertion_sort_operator_less: "std_sort_ensures insertion_sort operator_less"
  unfolding std_sort_ensures_def operator_less_sint
  by (simp add: mset_insertion_sort sorted_insertion_sort)

lemma sint_int64_t_or: "sint (int64_t e) = push_bit 32 (sint (to' e)) OR uint (from' e)"
  by (rule bit_eqI)
    (auto simp add: int64_t_def bit_simps min_def not_le not_less bit_sint_iff bit_uint_iff
      dest: bit_imp_le_length)

lemma sint_int64_t: "sint (int64_t e) = sint (to' e) * 2 ^ 32 + uint (from' e)"
proof -
  have "push_bit 32 (sint (to' e)) OR uint (from' e) = push_bit 32 (sint (to' e)) + uint (from' e)"
    by (rule disjunctive_add[symmetric]) (auto simp add: bit_simps bit_uint_iff dest: bit_imp_le_length)
  then show ?thesis by (simp add: sint_int64_t_or push_bit_eq_mult)
qed

lemma shifted_pair_less_iff:
  fixes p q r s :: int
  assumes "0 \<le> q" "q < 4294967296" "0 \<le> s" "s < 4294967296"
  shows "p * 4294967296 + q < r * 4294967296 + s \<longleftrightarrow> p < r \<or> (p = r \<and> q < s)"
  using assms by arith

lemma sint_int64_t_less_iff:
  "sint (int64_t a) < sint (int64_t b) \<longleftrightarrow>
     sint (to' a) < sint (to' b) \<or> (to' a = to' b \<and> from' a < from' b)"
proof -
  have eq: "to' a = to' b \<longleftrightarrow> sint (to' a) = sint (to' b)"
    by (auto intro: signed_word_eqI)
  have "uint (from' a) < 4294967296" "uint (from' b) < 4294967296"
    using uint_lt2p [of "from' a"] uint_lt2p [of "from' b"] by simp_all
  then have "sint (to' a) * 4294967296 + uint (from' a) < sint (to' b) * 4294967296 + uint (from' b)
      \<longleftrightarrow> sint (to' a) < sint (to' b) \<or> (sint (to' a) = sint (to' b) \<and> uint (from' a) < uint (from' b))"
    by (intro shifted_pair_less_iff) simp_all
  then show ?thesis
    by (simp add: sint_int64_t eq word_less_def)
qed

lemma sint_int64_t_inj: "sint (int64_t a) = sint (int64_t b) \<longleftrightarrow> a = b"
proof
  assume h: "sint (int64_t a) = sint (int64_t b)"
  have "\<not> sint (int64_t a) < sint (int64_t b)" "\<not> sint (int64_t b) < sint (int64_t a)"
    using h by simp_all
  then have "sint (to' a) = sint (to' b)" and *: "to' a = to' b \<longrightarrow> from' a = from' b"
    unfolding sint_int64_t_less_iff by auto
  then have "to' a = to' b \<and> from' a = from' b"
    by (auto intro: signed_word_eqI)
  then show "a = b" by simp
qed simp

lemma operator_eq_iff: "operator_eq a b \<longleftrightarrow> a = b"
  unfolding operator_eq_def
  using sint_int64_t_inj [of a b] by auto

lemma std_unique_eq_remdups_adj: "std_unique (=) xs = remdups_adj xs"
  by (induction xs rule: remdups_adj.induct) simp_all

lemma std_unique_operator_eq: "std_unique operator_eq xs = remdups_adj xs"
proof -
  have "operator_eq = (=)" by (simp add: fun_eq_iff operator_eq_iff)
  then show ?thesis by (simp add: std_unique_eq_remdups_adj)
qed

lemma resize_length [simp]: "resize (length xs) xs = xs"
  by (simp add: resize_def)

lemma inj_sint_int64_t: "inj_on (\<lambda>e. sint (int64_t e)) A"
  by (rule inj_onI) (simp add: sint_int64_t_inj)

lemma std_sort_operator_less:
  assumes "std_sort_ensures std_sort operator_less"
  shows "std_sort operator_less xs = sort_key (\<lambda>e. sint (int64_t e)) xs"
proof -
  let ?ys = "std_sort operator_less xs"
  have m: "mset ?ys = mset xs" and s: "sorted_wrt (\<lambda>a b. \<not> operator_less b a) ?ys"
    using assms by (simp_all add: std_sort_ensures_def)
  have "sorted (map (\<lambda>e. sint (int64_t e)) ?ys)"
    using s by (simp add: sorted_map operator_less_sint not_less)
  then have "sort_key (\<lambda>e. sint (int64_t e)) xs = ?ys"
    using m inj_sint_int64_t by (intro sort_key_inj_key_eq) simp_all
  then show ?thesis by simp
qed

lemma Arrange_eq:
  assumes "std_sort_ensures std_sort operator_less"
  shows "Arrange std_sort xs = remdups_adj (sort_key (\<lambda>e. sint (int64_t e)) xs)"
  by (simp add: Arrange_def Let_def std_unique_operator_eq std_sort_operator_less [OF assms])

lemma sorted_distinct_adj_distinct:
  fixes xs :: "'k::linorder list"
  shows "sorted xs \<Longrightarrow> distinct_adj xs \<Longrightarrow> distinct xs"
proof (induction xs)
  case Nil
  then show ?case by simp
next
  case (Cons x xs)
  then show ?case by (cases xs) (auto simp add: distinct_adj_Cons)
qed

lemma Arrange_sorted_distinct:
  assumes "std_sort_ensures std_sort operator_less"
  shows "sorted (map (\<lambda>e. sint (int64_t e)) (Arrange std_sort xs)) \<and> distinct (Arrange std_sort xs)"
proof -
  let ?k = "\<lambda>e. sint (int64_t e)"
  have "map ?k (remdups_adj (sort_key ?k xs)) = remdups_adj (map ?k (sort_key ?k xs))"
    by (rule remdups_adj_map_injective [symmetric]) (rule injI, simp add: sint_int64_t_inj)
  moreover have "sorted (map ?k (sort_key ?k xs))" by simp
  ultimately have a: "sorted (map ?k (remdups_adj (sort_key ?k xs)))"
    and b: "distinct (map ?k (remdups_adj (sort_key ?k xs)))"
    by (simp_all add: sorted_remdups_adj sorted_distinct_adj_distinct)
  from b have "distinct (remdups_adj (sort_key ?k xs))" by (simp add: distinct_map)
  with a show ?thesis by (simp add: Arrange_eq [OF assms])
qed

lemma Arrange_strictly_increasing:
  assumes "std_sort_ensures std_sort operator_less"
  shows "sorted_wrt operator_less (Arrange std_sort xs)"
proof -
  let ?k = "\<lambda>e. sint (int64_t e)"
  let ?ys = "Arrange std_sort xs"
  have "sorted (map ?k ?ys)" "distinct (map ?k ?ys)"
    using Arrange_sorted_distinct [OF assms, of xs] inj_sint_int64_t
    by (simp_all add: distinct_map)
  then have "sorted_wrt (<) (map ?k ?ys)" by (simp add: strict_sorted_iff)
  then show ?thesis by (simp add: sorted_wrt_map operator_less_sint)
qed

lemma Arrange_fixed:
  assumes "std_sort_ensures std_sort operator_less"
  shows "Arrange std_sort (Arrange std_sort xs) = Arrange std_sort xs"
proof -
  let ?k = "\<lambda>e. sint (int64_t e)"
  let ?ys = "Arrange std_sort xs"
  have "sorted (map ?k ?ys)" "distinct ?ys"
    using Arrange_sorted_distinct [OF assms, of xs] by simp_all
  then have "remdups_adj (sort_key ?k ?ys) = ?ys"
    by (simp add: sort_key_id_if_sorted remdups_adj_distinct)
  then show ?thesis using Arrange_eq [OF assms, of ?ys] by simp
qed

subsection \<open>Arrange\<close>

text \<open>
  Claim C3. Whatever \<^verbatim>\<open>std::sort\<close> the library provides, \<open>Arrange\<close> is idempotent; its
  result is ordered by the signed 64-bit value \<^verbatim>\<open>(to << 32) | from\<close>, which is the order
  with the source line first and the native offset second; no (native offset, source
  line) pair occurs twice in it; and it has the elements of the input.
\<close>

theorem Arrange_idempotent_sorted_distinct:
  assumes "std_sort_ensures std_sort operator_less"
  shows "Arrange std_sort (Arrange std_sort xs) = Arrange std_sort xs
       \<and> sorted_wrt (\<lambda>a b. sint (int64_t a) \<le> sint (int64_t b)) (Arrange std_sort xs)
       \<and> sorted_wrt (\<lambda>a b. sint (to' a) < sint (to' b) \<or> (to' a = to' b \<and> from' a \<le> from' b))
            (Arrange std_sort xs)
       \<and> distinct (map (\<lambda>e. (from' e, to' e)) (Arrange std_sort xs))
       \<and> set (Arrange std_sort xs) = set xs"
proof -
  let ?ys = "Arrange std_sort xs"
  have inc: "sorted_wrt operator_less ?ys" by (rule Arrange_strictly_increasing [OF assms])
  have 1: "sorted_wrt (\<lambda>a b. sint (int64_t a) \<le> sint (int64_t b)) ?ys"
    by (rule sorted_wrt_mono_rel [OF _ inc]) (simp add: operator_less_sint)
  have 2: "sorted_wrt (\<lambda>a b. sint (to' a) < sint (to' b) \<or> (to' a = to' b \<and> from' a \<le> from' b)) ?ys"
    by (rule sorted_wrt_mono_rel [OF _ inc]) (auto simp add: operator_less_sint sint_int64_t_less_iff)
  have "inj (\<lambda>e::SrcMapElem. (from' e, to' e))" by (rule injI) simp
  then have 3: "distinct (map (\<lambda>e. (from' e, to' e)) ?ys)"
    using Arrange_sorted_distinct [OF assms, of xs] by (simp add: distinct_map inj_on_def)
  have 4: "set ?ys = set xs" by (simp add: Arrange_eq [OF assms])
  show ?thesis using Arrange_fixed [OF assms] 1 2 3 4 by simp
qed

theorem Arrange_idempotent_sorted_distinct_witness:
  "Arrange insertion_sort (Arrange insertion_sort
       [\<lparr>from' = 8, to' = 7\<rparr>, \<lparr>from' = 4, to' = -1\<rparr>, \<lparr>from' = 8, to' = 7\<rparr>, \<lparr>from' = 0, to' = 7\<rparr>])
     = [\<lparr>from' = 4, to' = -1\<rparr>, \<lparr>from' = 0, to' = 7\<rparr>, \<lparr>from' = 8, to' = 7\<rparr>]
   \<and> Arrange insertion_sort
       [\<lparr>from' = 8, to' = 7\<rparr>, \<lparr>from' = 4, to' = -1\<rparr>, \<lparr>from' = 8, to' = 7\<rparr>, \<lparr>from' = 0, to' = 7\<rparr>]
     = [\<lparr>from' = 4, to' = -1\<rparr>, \<lparr>from' = 0, to' = 7\<rparr>, \<lparr>from' = 8, to' = 7\<rparr>]"
proof -
  have a: "Arrange insertion_sort
       [\<lparr>from' = 8, to' = 7\<rparr>, \<lparr>from' = 4, to' = -1\<rparr>, \<lparr>from' = 8, to' = 7\<rparr>, \<lparr>from' = 0, to' = 7\<rparr>]
     = [\<lparr>from' = 4, to' = -1\<rparr>, \<lparr>from' = 0, to' = 7\<rparr>, \<lparr>from' = 8, to' = 7\<rparr>]"
    by (simp add: Arrange_def operator_less_sint sint_int64_t_less_iff operator_eq_iff [abs_def] resize_def)
  show ?thesis
    using Arrange_idempotent_sorted_distinct [OF insertion_sort_operator_less,
        of "[\<lparr>from' = 8, to' = 7\<rparr>, \<lparr>from' = 4, to' = -1\<rparr>, \<lparr>from' = 8, to' = 7\<rparr>, \<lparr>from' = 0, to' = 7\<rparr>]"]
    by (simp add: a)
qed

subsection \<open>SortByFrom\<close>

lemma SortByFrom_mset:
  assumes "std_sort_ensures std_sort (\<lambda>lhs rhs. from' lhs < from' rhs)"
  shows "mset (SortByFrom std_sort xs) = mset xs"
  using assms by (simp add: std_sort_ensures_def SortByFrom_def)

lemma SortByFrom_sorted:
  assumes "std_sort_ensures std_sort (\<lambda>lhs rhs. from' lhs < from' rhs)"
  shows "sorted (map from' (SortByFrom std_sort xs))"
  using assms by (simp add: std_sort_ensures_def SortByFrom_def sorted_map not_less)

lemma SortByFrom_set:
  assumes "std_sort_ensures std_sort (\<lambda>lhs rhs. from' lhs < from' rhs)"
  shows "set (SortByFrom std_sort xs) = set xs"
  using SortByFrom_mset [OF assms, of xs] by (rule mset_eq_setD)

lemma SortByFrom_Nil_iff:
  assumes "std_sort_ensures std_sort (\<lambda>lhs rhs. from' lhs < from' rhs)"
  shows "SortByFrom std_sort xs = [] \<longleftrightarrow> xs = []"
  using SortByFrom_mset [OF assms, of xs] by (metis mset_zero_iff)

lemma SortByFrom_distinct_offsets:
  assumes "std_sort_ensures std_sort (\<lambda>lhs rhs. from' lhs < from' rhs)"
    and "inj_on from' (set xs)"
  shows "SortByFrom std_sort xs = sort_key from' xs"
proof -
  have "sort_key from' xs = SortByFrom std_sort xs"
    using SortByFrom_mset [OF assms(1), of xs] SortByFrom_sorted [OF assms(1), of xs] assms(2)
    by (intro sort_key_inj_key_eq) simp_all
  then show ?thesis by simp
qed

subsection \<open>Dropping the highest offsets\<close>

lemma highest_scan_le: "highest_scan highest_pc xs i \<le> i"
  by (induction i) simp_all

lemma highest_scan_above:
  "highest_scan highest_pc xs i < k \<Longrightarrow> k \<le> i \<Longrightarrow> \<not> from' (xs ! k) < highest_pc"
proof (induction i)
  case 0
  then show ?case by simp
next
  case (Suc j)
  then show ?case by (cases "k = Suc j") (auto split: if_splits)
qed

lemma highest_scan_below:
  "0 < highest_scan highest_pc xs i \<Longrightarrow> from' (xs ! highest_scan highest_pc xs i) < highest_pc"
  by (induction i) (auto split: if_splits)

lemma drop_highest_take:
  "xs \<noteq> [] \<Longrightarrow>
   drop_highest highest_pc xs = take (Suc (highest_scan highest_pc xs (length xs - 1))) xs"
  using highest_scan_le [of highest_pc xs "length xs - 1"]
  by (cases xs) (simp_all add: drop_highest_def resize_def)

lemma drop_highest_not_Nil: "drop_highest highest_pc xs \<noteq> []"
  by (simp add: drop_highest_def resize_def)

lemma hd_drop_highest: "xs \<noteq> [] \<Longrightarrow> hd (drop_highest highest_pc xs) = hd xs"
  by (simp add: drop_highest_take)

lemma drop_highest_sorted:
  assumes "sorted (map from' xs)" and "xs \<noteq> []"
  shows "drop_highest highest_pc xs =
           (if from' (hd xs) < highest_pc then takeWhile (\<lambda>e. from' e < highest_pc) xs
            else [hd xs])"
proof -
  let ?i = "highest_scan highest_pc xs (length xs - 1)"
  have le: "?i \<le> length xs - 1" by (rule highest_scan_le)
  then have lt: "?i < length xs" using assms(2) by (cases xs) simp_all
  have mono: "from' (xs ! j) \<le> from' (xs ! k)" if "j \<le> k" "k < length xs" for j k
    using assms(1) that by (simp add: sorted_iff_nth_mono)
  show ?thesis
  proof (cases "from' (hd xs) < highest_pc")
    case True
    have below: "from' (xs ! j) < highest_pc" if "j < Suc ?i" for j
    proof (cases "?i = 0")
      case True
      with that have "j = 0" by simp
      with \<open>from' (hd xs) < highest_pc\<close> assms(2) show ?thesis by (simp add: hd_conv_nth)
    next
      case False
      then have "from' (xs ! ?i) < highest_pc" by (simp add: highest_scan_below)
      moreover have "from' (xs ! j) \<le> from' (xs ! ?i)" using that lt by (intro mono) simp_all
      ultimately show ?thesis by simp
    qed
    have above: "\<not> from' (xs ! Suc ?i) < highest_pc" if "Suc ?i < length xs"
      using that by (intro highest_scan_above [of highest_pc xs "length xs - 1"]) simp_all
    have "takeWhile (\<lambda>e. from' e < highest_pc) xs = take (Suc ?i) xs"
      using below above by (intro takeWhile_eq_take_P_nth) simp_all
    with True assms(2) show ?thesis by (simp add: drop_highest_take)
  next
    case False
    have "?i = 0"
    proof (rule ccontr)
      assume "?i \<noteq> 0"
      then have "from' (xs ! ?i) < highest_pc" by (simp add: highest_scan_below)
      moreover have "from' (xs ! 0) \<le> from' (xs ! ?i)" using lt by (intro mono) simp_all
      ultimately show False using False assms(2) by (simp add: hd_conv_nth)
    qed
    with False assms(2) show ?thesis by (simp add: drop_highest_take take_Suc)
  qed
qed

subsection \<open>The difference loop\<close>

lemma length_delta_loop [simp]: "length (delta_loop i xs) = length xs"
  by (induction i arbitrary: xs) simp_all

lemma delta_loop_nth:
  "i < length xs \<Longrightarrow> k < length xs \<Longrightarrow>
   delta_loop i xs ! k =
     (if 0 < k \<and> k \<le> i
      then \<lparr>from' = from' (xs ! k) - from' (xs ! (k - 1)), to' = to' (xs ! k) - to' (xs ! (k - 1))\<rparr>
      else xs ! k)"
proof (induction i arbitrary: xs)
  case 0
  then show ?case by auto
next
  case (Suc j)
  let ?ys = "xs[Suc j := \<lparr>from' = from' (xs ! Suc j) - from' (xs ! j),
                          to' = to' (xs ! Suc j) - to' (xs ! j)\<rparr>]"
  have "delta_loop (Suc j) xs ! k = delta_loop j ?ys ! k" by simp
  also have "\<dots> = (if 0 < k \<and> k \<le> j
      then \<lparr>from' = from' (?ys ! k) - from' (?ys ! (k - 1)), to' = to' (?ys ! k) - to' (?ys ! (k - 1))\<rparr>
      else ?ys ! k)"
    using Suc.prems by (intro Suc.IH) simp_all
  also have "\<dots> = (if 0 < k \<and> k \<le> Suc j
      then \<lparr>from' = from' (xs ! k) - from' (xs ! (k - 1)), to' = to' (xs ! k) - to' (xs ! (k - 1))\<rparr>
      else xs ! k)"
    using Suc.prems by (cases "k = Suc j") (auto simp add: nth_list_update)
  finally show ?case .
qed

lemma SrcMapElem_eta: "\<lparr>from' = from' x, to' = to' x\<rparr> = (x::SrcMapElem)"
  by (cases x) simp

lemma prefix_sum_differences:
  "length ds = length xs \<Longrightarrow>
   (\<And>k. k < length xs \<Longrightarrow>
      ds ! k = \<lparr>from' = from' (xs ! k) - from' (if k = 0 then prev else xs ! (k - 1)),
                to' = to' (xs ! k) - to' (if k = 0 then prev else xs ! (k - 1))\<rparr>) \<Longrightarrow>
   prefix_sum prev ds = xs"
proof (induction xs arbitrary: ds prev)
  case Nil
  then show ?case by simp
next
  case (Cons x xs)
  then obtain d ds' where ds: "ds = d # ds'" by (cases ds) auto
  have d: "d = \<lparr>from' = from' x - from' prev, to' = to' x - to' prev\<rparr>"
    using Cons.prems(2) [of 0] ds by simp
  have "prefix_sum x ds' = xs"
  proof (rule Cons.IH)
    show "length ds' = length xs" using Cons.prems(1) ds by simp
  next
    fix k assume k: "k < length xs"
    then show "ds' ! k = \<lparr>from' = from' (xs ! k) - from' (if k = 0 then x else xs ! (k - 1)),
                to' = to' (xs ! k) - to' (if k = 0 then x else xs ! (k - 1))\<rparr>"
      using Cons.prems(2) [of "Suc k"] ds by (cases k) simp_all
  qed
  then show ?case by (simp add: ds d Let_def SrcMapElem_eta)
qed

lemma delta_loop_hd: "xs \<noteq> [] \<Longrightarrow> delta_loop (length xs - Suc 0) xs ! 0 = hd xs"
  by (simp add: delta_loop_nth hd_conv_nth)

lemma DeltaFormat_unfold:
  assumes "xs \<noteq> []"
  shows "DeltaFormat std_sort kEnableDChecks start highest_pc xs =
     (if kEnableDChecks \<and> from' (hd (drop_highest highest_pc (SortByFrom std_sort xs))) < from' start
      then Inl DCHECK_failed
      else Inr ((delta_loop (length (drop_highest highest_pc (SortByFrom std_sort xs)) - 1)
                   (drop_highest highest_pc (SortByFrom std_sort xs)))
                [0 := \<lparr>from' = from' (hd (drop_highest highest_pc (SortByFrom std_sort xs))) - from' start,
                       to' = to' (hd (drop_highest highest_pc (SortByFrom std_sort xs))) - to' start\<rparr>]))"
  using assms
  by (simp add: DeltaFormat_def Let_def delta_loop_hd drop_highest_not_Nil not_le)

lemma prefix_sum_delta_loop:
  assumes "kept \<noteq> []"
  shows "prefix_sum start ((delta_loop (length kept - Suc 0) kept)
            [0 := \<lparr>from' = from' (hd kept) - from' start, to' = to' (hd kept) - to' start\<rparr>]) = kept"
proof (rule prefix_sum_differences)
  show "length ((delta_loop (length kept - Suc 0) kept)
            [0 := \<lparr>from' = from' (hd kept) - from' start, to' = to' (hd kept) - to' start\<rparr>]) = length kept"
    by simp
next
  fix k assume k: "k < length kept"
  then have i: "length kept - Suc 0 < length kept" by simp
  show "(delta_loop (length kept - Suc 0) kept)
            [0 := \<lparr>from' = from' (hd kept) - from' start, to' = to' (hd kept) - to' start\<rparr>] ! k =
        \<lparr>from' = from' (kept ! k) - from' (if k = 0 then start else kept ! (k - 1)),
         to' = to' (kept ! k) - to' (if k = 0 then start else kept ! (k - 1))\<rparr>"
    using k assms by (cases k) (simp_all add: delta_loop_nth [OF i] hd_conv_nth)
qed

lemma DeltaFormat_Inr_prefix_sum:
  assumes "xs \<noteq> []" and "DeltaFormat std_sort kEnableDChecks start highest_pc xs = Inr ds"
  shows "prefix_sum start ds = drop_highest highest_pc (SortByFrom std_sort xs)"
  using assms
  by (auto simp add: DeltaFormat_unfold prefix_sum_delta_loop drop_highest_not_Nil split: if_splits)

lemma takeWhile_below_sorted:
  fixes f :: "'a \<Rightarrow> 'k::linorder"
  shows "sorted (map f xs) \<Longrightarrow> takeWhile (\<lambda>e. f e < c) xs = filter (\<lambda>e. f e < c) xs"
proof (induction xs)
  case Nil
  then show ?case by simp
next
  case (Cons x xs)
  show ?case
  proof (cases "f x < c")
    case True
    with Cons show ?thesis by simp
  next
    case False
    then have "\<forall>y\<in>set xs. \<not> f y < c" using Cons.prems by auto
    then have "filter (\<lambda>e. f e < c) xs = []" by (simp add: filter_empty_conv)
    with False show ?thesis by simp
  qed
qed

lemma hd_SortByFrom_least:
  assumes "std_sort_ensures std_sort (\<lambda>lhs rhs. from' lhs < from' rhs)"
    and "xs \<noteq> []"
  shows "hd (SortByFrom std_sort xs) \<in> set xs
       \<and> (\<forall>e\<in>set xs. from' (hd (SortByFrom std_sort xs)) \<le> from' e)"
proof -
  let ?s = "SortByFrom std_sort xs"
  have ne: "?s \<noteq> []" using assms by (simp add: SortByFrom_Nil_iff)
  then obtain y ys where ys: "?s = y # ys" by (cases ?s) auto
  have "sorted (map from' ?s)" by (rule SortByFrom_sorted [OF assms(1)])
  then have "\<forall>e\<in>set ?s. from' y \<le> from' e" by (auto simp add: ys)
  moreover have "y \<in> set ?s" by (simp add: ys)
  ultimately show ?thesis
    unfolding SortByFrom_set [OF assms(1)] by (simp add: ys)
qed

subsection \<open>DeltaFormat\<close>

text \<open>
  Claim C1. For a non-empty source map whose first entry, after sorting by native offset
  and dropping the entries at or above \<open>highest_pc\<close>, has a native offset that is at
  least \<open>start\<close>'s, \<open>DeltaFormat\<close> returns a delta sequence, and prefix-summing that
  sequence from \<open>start\<close> gives back exactly the sorted and trimmed sequence. This holds
  with the checks of the build enabled or not, and for any \<^verbatim>\<open>std::sort\<close>. The additions
  and subtractions are those of the 32-bit fields.
\<close>

theorem DeltaFormat_prefix_sum_roundtrip:
  assumes "xs \<noteq> []"
    and "from' start \<le> from' (hd (drop_highest highest_pc (SortByFrom std_sort xs)))"
  shows "\<exists>ds. DeltaFormat std_sort kEnableDChecks start highest_pc xs = Inr ds
            \<and> prefix_sum start ds = drop_highest highest_pc (SortByFrom std_sort xs)"
  using assms
  by (simp add: DeltaFormat_unfold not_less [symmetric] prefix_sum_delta_loop drop_highest_not_Nil)

theorem DeltaFormat_prefix_sum_roundtrip_witness:
  "[\<lparr>from' = 40, to' = 9\<rparr>, \<lparr>from' = 12, to' = 3\<rparr>, \<lparr>from' = 12, to' = 1\<rparr>, \<lparr>from' = 25, to' = 4\<rparr>] \<noteq> []
   \<and> from' \<lparr>from' = 8, to' = 1\<rparr> \<le> from' (hd (drop_highest 30 (SortByFrom insertion_sort
        [\<lparr>from' = 40, to' = 9\<rparr>, \<lparr>from' = 12, to' = 3\<rparr>, \<lparr>from' = 12, to' = 1\<rparr>, \<lparr>from' = 25, to' = 4\<rparr>])))
   \<and> DeltaFormat insertion_sort True \<lparr>from' = 8, to' = 1\<rparr> 30
        [\<lparr>from' = 40, to' = 9\<rparr>, \<lparr>from' = 12, to' = 3\<rparr>, \<lparr>from' = 12, to' = 1\<rparr>, \<lparr>from' = 25, to' = 4\<rparr>]
       = Inr [\<lparr>from' = 4, to' = 0\<rparr>, \<lparr>from' = 0, to' = 2\<rparr>, \<lparr>from' = 13, to' = 1\<rparr>]
   \<and> prefix_sum \<lparr>from' = 8, to' = 1\<rparr>
        [\<lparr>from' = 4, to' = 0\<rparr>, \<lparr>from' = 0, to' = 2\<rparr>, \<lparr>from' = 13, to' = 1\<rparr>]
       = drop_highest 30 (SortByFrom insertion_sort
        [\<lparr>from' = 40, to' = 9\<rparr>, \<lparr>from' = 12, to' = 3\<rparr>, \<lparr>from' = 12, to' = 1\<rparr>, \<lparr>from' = 25, to' = 4\<rparr>])"
proof -
  let ?xs = "[\<lparr>from' = 40, to' = 9\<rparr>, \<lparr>from' = 12, to' = 3\<rparr>, \<lparr>from' = 12, to' = 1\<rparr>, \<lparr>from' = 25, to' = 4\<rparr>]"
  have a: "?xs \<noteq> []" by simp
  have b: "from' \<lparr>from' = 8, to' = 1\<rparr> \<le> from' (hd (drop_highest 30 (SortByFrom insertion_sort ?xs)))"
    by code_simp
  have c: "DeltaFormat insertion_sort True \<lparr>from' = 8, to' = 1\<rparr> 30 ?xs
       = Inr [\<lparr>from' = 4, to' = 0\<rparr>, \<lparr>from' = 0, to' = 2\<rparr>, \<lparr>from' = 13, to' = 1\<rparr>]"
    by code_simp
  from DeltaFormat_prefix_sum_roundtrip [OF a b, of True] c
  have "prefix_sum \<lparr>from' = 8, to' = 1\<rparr>
        [\<lparr>from' = 4, to' = 0\<rparr>, \<lparr>from' = 0, to' = 2\<rparr>, \<lparr>from' = 13, to' = 1\<rparr>]
       = drop_highest 30 (SortByFrom insertion_sort ?xs)"
    by simp
  with a b c show ?thesis by simp
qed

text \<open>
  Claim C2, as the code has it. \<open>DeltaFormat\<close> sorts by native offset ascending, and then
  keeps the prefix up to and including the last entry whose native offset is below
  \<open>highest_pc\<close> when the smallest offset is below \<open>highest_pc\<close> (the kept entries are then
  exactly those below it), and only the first entry otherwise: the scan stops at index 0
  without looking at that entry. The deltas that \<open>DeltaFormat\<close> returns sum up to the
  kept sequence.
\<close>

theorem DeltaFormat_drops_highest:
  assumes "std_sort_ensures std_sort (\<lambda>lhs rhs. from' lhs < from' rhs)"
    and "xs \<noteq> []"
  shows "mset (SortByFrom std_sort xs) = mset xs
       \<and> sorted (map from' (SortByFrom std_sort xs))
       \<and> drop_highest highest_pc (SortByFrom std_sort xs) =
           (if from' (hd (SortByFrom std_sort xs)) < highest_pc
            then takeWhile (\<lambda>e. from' e < highest_pc) (SortByFrom std_sort xs)
            else [hd (SortByFrom std_sort xs)])
       \<and> (from' (hd (SortByFrom std_sort xs)) < highest_pc \<longrightarrow>
            drop_highest highest_pc (SortByFrom std_sort xs) =
              filter (\<lambda>e. from' e < highest_pc) (SortByFrom std_sort xs))
       \<and> (\<forall>ds. DeltaFormat std_sort kEnableDChecks start highest_pc xs = Inr ds \<longrightarrow>
            prefix_sum start ds = drop_highest highest_pc (SortByFrom std_sort xs))"
proof -
  let ?s = "SortByFrom std_sort xs"
  have s: "sorted (map from' ?s)" by (rule SortByFrom_sorted [OF assms(1)])
  have ne: "?s \<noteq> []" using assms by (simp add: SortByFrom_Nil_iff)
  have d: "drop_highest highest_pc ?s =
           (if from' (hd ?s) < highest_pc then takeWhile (\<lambda>e. from' e < highest_pc) ?s else [hd ?s])"
    by (rule drop_highest_sorted [OF s ne])
  have f: "from' (hd ?s) < highest_pc \<longrightarrow>
            drop_highest highest_pc ?s = filter (\<lambda>e. from' e < highest_pc) ?s"
    using d takeWhile_below_sorted [OF s, of highest_pc] by simp
  show ?thesis
    using SortByFrom_mset [OF assms(1), of xs] s d f DeltaFormat_Inr_prefix_sum [OF assms(2)]
    by blast
qed

theorem DeltaFormat_drops_highest_witness:
  "std_sort_ensures insertion_sort (\<lambda>lhs rhs. from' lhs < from' rhs)
   \<and> [\<lparr>from' = 30, to' = 5\<rparr>, \<lparr>from' = 10, to' = 2\<rparr>, \<lparr>from' = 20, to' = 2\<rparr>, \<lparr>from' = 7, to' = 6\<rparr>] \<noteq> []
   \<and> drop_highest 15 (SortByFrom insertion_sort
        [\<lparr>from' = 30, to' = 5\<rparr>, \<lparr>from' = 10, to' = 2\<rparr>, \<lparr>from' = 20, to' = 2\<rparr>, \<lparr>from' = 7, to' = 6\<rparr>])
       = [\<lparr>from' = 7, to' = 6\<rparr>, \<lparr>from' = 10, to' = 2\<rparr>]"
proof -
  let ?xs = "[\<lparr>from' = 30, to' = 5\<rparr>, \<lparr>from' = 10, to' = 2\<rparr>, \<lparr>from' = 20, to' = 2\<rparr>, \<lparr>from' = 7, to' = 6\<rparr>]"
  have a: "?xs \<noteq> []" by simp
  have s: "SortByFrom insertion_sort ?xs
    = [\<lparr>from' = 7, to' = 6\<rparr>, \<lparr>from' = 10, to' = 2\<rparr>, \<lparr>from' = 20, to' = 2\<rparr>, \<lparr>from' = 30, to' = 5\<rparr>]"
    by code_simp
  from DeltaFormat_drops_highest [OF insertion_sort_by_from a, of 15]
  have "drop_highest 15 (SortByFrom insertion_sort ?xs) =
           (if from' (hd (SortByFrom insertion_sort ?xs)) < 15
            then takeWhile (\<lambda>e. from' e < 15) (SortByFrom insertion_sort ?xs)
            else [hd (SortByFrom insertion_sort ?xs)])"
    by blast
  then have "drop_highest 15 (SortByFrom insertion_sort ?xs)
       = [\<lparr>from' = 7, to' = 6\<rparr>, \<lparr>from' = 10, to' = 2\<rparr>]"
    unfolding s by simp
  with a insertion_sort_by_from show ?thesis by simp
qed

text \<open>
  The claim as the specification words it fails on the map \<open>[(30, 5)]\<close> with
  \<open>highest_pc = 25\<close>: the only entry is at or above \<open>highest_pc\<close> and remains.
\<close>

theorem DeltaFormat_drops_highest_counterexample:
  "drop_highest 25 (SortByFrom insertion_sort [\<lparr>from' = 30, to' = 5\<rparr>]) = [\<lparr>from' = 30, to' = 5\<rparr>]
   \<and> \<not> from' \<lparr>from' = 30, to' = 5\<rparr> < 25
   \<and> DeltaFormat insertion_sort True \<lparr>from' = 10, to' = 2\<rparr> 25 [\<lparr>from' = 30, to' = 5\<rparr>]
       = Inr [\<lparr>from' = 20, to' = 3\<rparr>]"
  by code_simp

text \<open>
  Claim C9. On a non-empty source map \<open>DeltaFormat\<close> never produces an empty sequence.
  The first entry of the sorted map is an entry of the input with the smallest native
  offset; it is still the first entry after the highest offsets have been dropped,
  whatever \<open>highest_pc\<close> is; and the first delta of the result is that entry relative to
  \<open>start\<close>. The only way not to return a sequence is the failed \<^verbatim>\<open>DCHECK\<close> of a build
  with checks, when that smallest offset is below \<open>start\<close>'s.
\<close>

theorem DeltaFormat_never_empty:
  assumes "std_sort_ensures std_sort (\<lambda>lhs rhs. from' lhs < from' rhs)"
    and "xs \<noteq> []"
  shows "hd (SortByFrom std_sort xs) \<in> set xs
       \<and> (\<forall>e\<in>set xs. from' (hd (SortByFrom std_sort xs)) \<le> from' e)
       \<and> hd (drop_highest highest_pc (SortByFrom std_sort xs)) = hd (SortByFrom std_sort xs)
       \<and> (case DeltaFormat std_sort kEnableDChecks start highest_pc xs of
            Inr ds \<Rightarrow> ds \<noteq> []
              \<and> hd ds = \<lparr>from' = from' (hd (SortByFrom std_sort xs)) - from' start,
                         to' = to' (hd (SortByFrom std_sort xs)) - to' start\<rparr>
          | Inl abort \<Rightarrow> kEnableDChecks \<and> from' (hd (SortByFrom std_sort xs)) < from' start)"
proof -
  let ?s = "SortByFrom std_sort xs"
  have ne: "?s \<noteq> []" using assms by (simp add: SortByFrom_Nil_iff)
  have h: "hd (drop_highest highest_pc ?s) = hd ?s" by (rule hd_drop_highest [OF ne])
  have "case DeltaFormat std_sort kEnableDChecks start highest_pc xs of
            Inr ds \<Rightarrow> ds \<noteq> []
              \<and> hd ds = \<lparr>from' = from' (hd ?s) - from' start, to' = to' (hd ?s) - to' start\<rparr>
          | Inl abort \<Rightarrow> kEnableDChecks \<and> from' (hd ?s) < from' start"
  proof -
    have "length (delta_loop (length (drop_highest highest_pc ?s) - Suc 0) (drop_highest highest_pc ?s)) \<noteq> 0"
      using drop_highest_not_Nil [of highest_pc ?s] by simp
    then obtain d ds' where
      "delta_loop (length (drop_highest highest_pc ?s) - Suc 0) (drop_highest highest_pc ?s) = d # ds'"
      by (cases "delta_loop (length (drop_highest highest_pc ?s) - Suc 0) (drop_highest highest_pc ?s)") auto
    then show ?thesis
      by (simp add: DeltaFormat_unfold [OF assms(2)] h)
  qed
  then show ?thesis using hd_SortByFrom_least [OF assms] h by simp
qed

theorem DeltaFormat_never_empty_witness:
  "std_sort_ensures insertion_sort (\<lambda>lhs rhs. from' lhs < from' rhs)
   \<and> [\<lparr>from' = 50, to' = 3\<rparr>, \<lparr>from' = 40, to' = 8\<rparr>] \<noteq> []
   \<and> hd (SortByFrom insertion_sort [\<lparr>from' = 50, to' = 3\<rparr>, \<lparr>from' = 40, to' = 8\<rparr>]) = \<lparr>from' = 40, to' = 8\<rparr>
   \<and> \<not> from' \<lparr>from' = 40, to' = 8\<rparr> < 25
   \<and> DeltaFormat insertion_sort True \<lparr>from' = 5, to' = 1\<rparr> 25
        [\<lparr>from' = 50, to' = 3\<rparr>, \<lparr>from' = 40, to' = 8\<rparr>] \<noteq> Inr []"
proof -
  let ?xs = "[\<lparr>from' = 50, to' = 3\<rparr>, \<lparr>from' = 40, to' = 8\<rparr>]"
  have a: "?xs \<noteq> []" by simp
  have s: "hd (SortByFrom insertion_sort ?xs) = \<lparr>from' = 40, to' = 8\<rparr>" by code_simp
  have "DeltaFormat insertion_sort True \<lparr>from' = 5, to' = 1\<rparr> 25 ?xs \<noteq> Inr []"
    using DeltaFormat_never_empty [OF insertion_sort_by_from a, of 25 True "\<lparr>from' = 5, to' = 1\<rparr>"]
    by (auto split: sum.splits)
  with a s insertion_sort_by_from show ?thesis by simp
qed

lemma scenario_E_kept:
  "drop_highest 25 [\<lparr>from' = 10, to' = 2\<rparr>, \<lparr>from' = 20, to' = 2\<rparr>, \<lparr>from' = 30, to' = 5\<rparr>]
     = [\<lparr>from' = 10, to' = 2\<rparr>, \<lparr>from' = 20, to' = 2\<rparr>]"
  by code_simp

text \<open>
  Claim C8 (scenario E). For the map \<open>[(30,5), (10,2), (20,2)]\<close>, \<open>start = (10,2)\<close> and
  \<open>highest_pc = 25\<close>: the map is sorted to \<open>[(10,2), (20,2), (30,5)]\<close>, the entry
  \<open>(30,5)\<close> is dropped, and the result is the delta sequence \<open>[(0,0), (10,0)]\<close>.
\<close>

theorem DeltaFormat_scenario_E:
  assumes "std_sort_ensures std_sort (\<lambda>lhs rhs. from' lhs < from' rhs)"
  shows "SortByFrom std_sort [\<lparr>from' = 30, to' = 5\<rparr>, \<lparr>from' = 10, to' = 2\<rparr>, \<lparr>from' = 20, to' = 2\<rparr>]
           = [\<lparr>from' = 10, to' = 2\<rparr>, \<lparr>from' = 20, to' = 2\<rparr>, \<lparr>from' = 30, to' = 5\<rparr>]
       \<and> drop_highest 25
            (SortByFrom std_sort [\<lparr>from' = 30, to' = 5\<rparr>, \<lparr>from' = 10, to' = 2\<rparr>, \<lparr>from' = 20, to' = 2\<rparr>])
           = [\<lparr>from' = 10, to' = 2\<rparr>, \<lparr>from' = 20, to' = 2\<rparr>]
       \<and> DeltaFormat std_sort kEnableDChecks \<lparr>from' = 10, to' = 2\<rparr> 25
            [\<lparr>from' = 30, to' = 5\<rparr>, \<lparr>from' = 10, to' = 2\<rparr>, \<lparr>from' = 20, to' = 2\<rparr>]
           = Inr [\<lparr>from' = 0, to' = 0\<rparr>, \<lparr>from' = 10, to' = 0\<rparr>]"
proof -
  let ?xs = "[\<lparr>from' = 30, to' = 5\<rparr>, \<lparr>from' = 10, to' = 2\<rparr>, \<lparr>from' = 20, to' = 2\<rparr>]"
  have "inj_on from' (set ?xs)" by (simp add: inj_on_def)
  then have "SortByFrom std_sort ?xs = sort_key from' ?xs"
    by (rule SortByFrom_distinct_offsets [OF assms])
  then have s: "SortByFrom std_sort ?xs
           = [\<lparr>from' = 10, to' = 2\<rparr>, \<lparr>from' = 20, to' = 2\<rparr>, \<lparr>from' = 30, to' = 5\<rparr>]"
    by simp
  have "DeltaFormat std_sort kEnableDChecks \<lparr>from' = 10, to' = 2\<rparr> 25 ?xs
           = Inr [\<lparr>from' = 0, to' = 0\<rparr>, \<lparr>from' = 10, to' = 0\<rparr>]"
    by (simp add: DeltaFormat_def s scenario_E_kept)
  then show ?thesis by (simp add: s scenario_E_kept)
qed

theorem DeltaFormat_scenario_E_witness:
  "std_sort_ensures insertion_sort (\<lambda>lhs rhs. from' lhs < from' rhs)
   \<and> DeltaFormat insertion_sort True \<lparr>from' = 10, to' = 2\<rparr> 25
        [\<lparr>from' = 30, to' = 5\<rparr>, \<lparr>from' = 10, to' = 2\<rparr>, \<lparr>from' = 20, to' = 2\<rparr>]
       = Inr [\<lparr>from' = 0, to' = 0\<rparr>, \<lparr>from' = 10, to' = 0\<rparr>]"
  using DeltaFormat_scenario_E [OF insertion_sort_by_from, of True] insertion_sort_by_from
  by simp

section \<open>Properties of the optimizing compiler\<close>

lemma package_fields:
  "GetInstructionSet (package std_sort env isa s) = isa"
  "GetFrameSizeInBytes (package std_sort env isa s) = codegen_GetFrameSize env s"
  "GetCoreSpillMask (package std_sort env isa s) = codegen_GetCoreSpillMask env s"
  "GetFpSpillMask (package std_sort env isa s) = 0"
  "quick_code (package std_sort env isa s) = allocator_GetMemory env s"
  by (simp_all add: package_def SwapAllocCompiledMethod_def GetInstructionSet_def
      GetFrameSizeInBytes_def GetCoreSpillMask_def GetFpSpillMask_def split: prod.splits)

lemma TryCompile_unsupported:
  assumes "isa = (if driver_GetInstructionSet env = kArm then kThumb2 else driver_GetInstructionSet env)"
    and "isa \<noteq> kX86 \<and> isa \<noteq> kX86_64 \<and> isa \<noteq> kThumb2"
  shows "TryCompile std_sort env args = (Inr None, [])"
  using assms by (simp add: TryCompile_def)

lemma TryCompile_supported:
  assumes "isa = (if driver_GetInstructionSet env = kArm then kThumb2 else driver_GetInstructionSet env)"
    and "isa = kX86 \<or> isa = kX86_64 \<or> isa = kThumb2"
  shows "TryCompile std_sort env args =
     (case builder_BuildGraph env args of
        None \<Rightarrow>
          (if find_not_npos (GetSymbol env args) ''00024opt_00024''
           then Inl (LOG_FATAL ''Could not build graph in optimizing compiler'')
           else Inr None,
           [BuildGraph])
      | Some graph \<Rightarrow>
         (case CodeGenerator_Create_result env graph isa of
            None \<Rightarrow>
              (if find_not_npos (GetSymbol env args) ''00024opt_00024''
               then Inl (LOG_FATAL ''Could not find code generator for optimizing compiler'')
               else Inr None,
               [BuildGraph, CodeGenerator_Create isa])
          | Some codegen \<Rightarrow>
              if CanAllocateRegistersFor env (run env (DumpGraph builder) codegen) isa then
                (Inr (Some (package std_sort env isa
                        (fold (run env) optimized_stages (run env (DumpGraph builder) codegen)))),
                 [BuildGraph, CodeGenerator_Create isa, DumpGraph builder] @ optimized_stages
                   @ [BuildMappingTable, BuildVMapTable, BuildNativeGCMap])
              else if find_not_npos (GetSymbol env args) ''00024reg_00024'' \<and> Supports env isa then
                (Inl (LOG_FATAL ''Could not allocate registers in optimizing compiler''),
                 [BuildGraph, CodeGenerator_Create isa, DumpGraph builder])
              else
                (Inr (Some (package std_sort env isa
                        (fold (run env) baseline_stages (run env (DumpGraph builder) codegen)))),
                 [BuildGraph, CodeGenerator_Create isa, DumpGraph builder] @ baseline_stages
                   @ [BuildMappingTable, BuildVMapTable, BuildNativeGCMap])))"
proof -
  have "\<not> (isa \<noteq> kX86 \<and> isa \<noteq> kX86_64 \<and> isa \<noteq> kThumb2)" using assms(2) by blast
  then show ?thesis
    unfolding TryCompile_def Let_def assms(1) [symmetric]
    by (simp only: if_False)
qed

lemma TryCompile_no_delegate: "delegate_Compile a \<notin> set (snd (TryCompile std_sort env args))"
  by (simp add: TryCompile_def Let_def optimized_stages_def baseline_stages_def
      split: option.splits)

subsection \<open>Unsupported instruction sets\<close>

text \<open>
  Claim C6. When the instruction set of the request, with ARM replaced by Thumb2, is none
  of x86, x86_64 and Thumb2, \<open>TryCompile\<close> returns \<^verbatim>\<open>nullptr\<close>: it does not abort, it
  builds no graph and it runs no stage.
\<close>

theorem TryCompile_unsupported_instruction_set:
  assumes "isa = (if driver_GetInstructionSet env = kArm then kThumb2 else driver_GetInstructionSet env)"
    and "isa \<noteq> kX86" and "isa \<noteq> kX86_64" and "isa \<noteq> kThumb2"
  shows "TryCompile std_sort env args = (Inr None, [])"
  using assms by (simp add: TryCompile_def)

theorem TryCompile_unsupported_instruction_set_witness:
  "kOtherInstructionSet 2 = (if driver_GetInstructionSet
          (sample_collaborators (kOtherInstructionSet 2) True ''Main.run'' None) = kArm then kThumb2
       else driver_GetInstructionSet (sample_collaborators (kOtherInstructionSet 2) True ''Main.run'' None))
   \<and> kOtherInstructionSet 2 \<noteq> kX86 \<and> kOtherInstructionSet 2 \<noteq> kX86_64
   \<and> kOtherInstructionSet 2 \<noteq> kThumb2
   \<and> TryCompile insertion_sort (sample_collaborators (kOtherInstructionSet 2) True ''Main.run'' None)
        sample_args = (Inr None, [])"
proof -
  have a: "kOtherInstructionSet 2 = (if driver_GetInstructionSet
          (sample_collaborators (kOtherInstructionSet 2) True ''Main.run'' None) = kArm then kThumb2
       else driver_GetInstructionSet (sample_collaborators (kOtherInstructionSet 2) True ''Main.run'' None))"
    by (simp add: sample_collaborators_def)
  have b: "kOtherInstructionSet 2 \<noteq> kX86" "kOtherInstructionSet 2 \<noteq> kX86_64"
    "kOtherInstructionSet 2 \<noteq> kThumb2" by simp_all
  from TryCompile_unsupported_instruction_set [OF a b] a show ?thesis by simp
qed

subsection \<open>The baseline path\<close>

text \<open>
  Claim C4, as the code has it. When the graph and the code generator exist, the register
  allocator's capability check answers no, and the method is not one that is both marked
  for forced optimization and on an instruction set the allocator supports, then baseline
  code generation runs first, on the graph as the builder left it. The register
  allocator, the two phi eliminations and optimized code generation do not run. The
  dominator tree, the SSA conversion, the loop finder and the liveness analysis do run,
  after the code has been generated.
\<close>

theorem TryCompile_baseline_path:
  assumes "isa = (if driver_GetInstructionSet env = kArm then kThumb2 else driver_GetInstructionSet env)"
    and "isa = kX86 \<or> isa = kX86_64 \<or> isa = kThumb2"
    and "builder_BuildGraph env args = Some graph"
    and "CodeGenerator_Create_result env graph isa = Some codegen"
    and "\<not> CanAllocateRegistersFor env (run env (DumpGraph builder) codegen) isa"
    and "\<not> (find_not_npos (GetSymbol env args) ''00024reg_00024'' \<and> Supports env isa)"
  shows "snd (TryCompile std_sort env args) =
           [BuildGraph, CodeGenerator_Create isa, DumpGraph builder,
            CompileBaseline,
            BuildDominatorTree, TransformToSSA, DumpGraph ssa, FindNaturalLoops,
            SsaLivenessAnalysis, DumpGraph kLivenessPassName,
            BuildMappingTable, BuildVMapTable, BuildNativeGCMap]
       \<and> fst (TryCompile std_sort env args) =
           Inr (Some (package std_sort env isa
             (fold (run env)
                [CompileBaseline,
                 BuildDominatorTree, TransformToSSA, DumpGraph ssa, FindNaturalLoops,
                 SsaLivenessAnalysis, DumpGraph kLivenessPassName]
                (run env (DumpGraph builder) codegen))))
       \<and> AllocateRegisters \<notin> set (snd (TryCompile std_sort env args))
       \<and> SsaRedundantPhiElimination \<notin> set (snd (TryCompile std_sort env args))
       \<and> SsaDeadPhiElimination \<notin> set (snd (TryCompile std_sort env args))
       \<and> CompileOptimized \<notin> set (snd (TryCompile std_sort env args))"
  using assms(3-6)
  by (simp add: TryCompile_supported [OF assms(1,2)] baseline_stages_def)

theorem TryCompile_baseline_path_witness:
  "snd (TryCompile insertion_sort (sample_collaborators kArm False ''Main.run'' None) sample_args) =
           [BuildGraph, CodeGenerator_Create kThumb2, DumpGraph builder,
            CompileBaseline,
            BuildDominatorTree, TransformToSSA, DumpGraph ssa, FindNaturalLoops,
            SsaLivenessAnalysis, DumpGraph kLivenessPassName,
            BuildMappingTable, BuildVMapTable, BuildNativeGCMap]
   \<and> fst (TryCompile insertion_sort (sample_collaborators kArm False ''Main.run'' None) sample_args)
       = Inr (Some (sample_method kThumb2 8))"
proof -
  let ?env = "sample_collaborators kArm False ''Main.run'' None"
  have a: "kThumb2 = (if driver_GetInstructionSet ?env = kArm then kThumb2 else driver_GetInstructionSet ?env)"
    by (simp add: sample_collaborators_def)
  have b: "kThumb2 = kX86 \<or> kThumb2 = kX86_64 \<or> kThumb2 = kThumb2" by simp
  have c: "builder_BuildGraph ?env sample_args = Some 0" by (simp add: sample_collaborators_def)
  have d: "CodeGenerator_Create_result ?env 0 kThumb2 = Some 0" by (simp add: sample_collaborators_def)
  have e: "\<not> CanAllocateRegistersFor ?env (run ?env (DumpGraph builder) 0) kThumb2"
    by (simp add: sample_collaborators_def)
  have f: "\<not> (find_not_npos (GetSymbol ?env sample_args) ''00024reg_00024'' \<and> Supports ?env kThumb2)"
    by (simp add: sample_collaborators_def)
  have g: "package insertion_sort ?env kThumb2
             (fold (run ?env)
                [CompileBaseline,
                 BuildDominatorTree, TransformToSSA, DumpGraph ssa, FindNaturalLoops,
                 SsaLivenessAnalysis, DumpGraph kLivenessPassName]
                (run ?env (DumpGraph builder) 0)) = sample_method kThumb2 8"
    by (simp add: sample_collaborators_def package_def SwapAllocCompiledMethod_def Arrange_def
        sample_method_def)
  from TryCompile_baseline_path [OF a b c d e f, of insertion_sort] g
  show ?thesis by simp
qed

text \<open>
  The claim as the specification words it fails on the sample configuration for x86 with
  an allocator that cannot allocate and an unmarked method: the dominator tree is built
  (and SSA conversion, loop finding and liveness analysis run) on the baseline path.
\<close>

theorem TryCompile_baseline_path_counterexample:
  "\<not> CanAllocateRegistersFor (sample_collaborators kX86 False ''Main.run'' None) 1 kX86
   \<and> \<not> find_not_npos (GetSymbol (sample_collaborators kX86 False ''Main.run'' None) sample_args)
         ''00024reg_00024''
   \<and> snd (TryCompile insertion_sort (sample_collaborators kX86 False ''Main.run'' None) sample_args) =
           [BuildGraph, CodeGenerator_Create kX86, DumpGraph builder,
            CompileBaseline,
            BuildDominatorTree, TransformToSSA, DumpGraph ssa, FindNaturalLoops,
            SsaLivenessAnalysis, DumpGraph kLivenessPassName,
            BuildMappingTable, BuildVMapTable, BuildNativeGCMap]
   \<and> BuildDominatorTree \<in> set (snd (TryCompile insertion_sort
         (sample_collaborators kX86 False ''Main.run'' None) sample_args))"
  by (simp add: TryCompile_def sample_collaborators_def baseline_stages_def)

subsection \<open>Compile and the delegate\<close>

text \<open>
  Claim C5, as the code has it. If \<open>TryCompile\<close> returns \<^verbatim>\<open>nullptr\<close>, \<open>Compile\<close> returns
  exactly what the delegate's \<open>Compile\<close> returns for the same arguments, so its result is
  absent exactly when the delegate's is. If \<open>TryCompile\<close> returns a compiled method,
  \<open>Compile\<close> returns that method and the delegate is not invoked.
\<close>

theorem Compile_delegates:
  "(\<forall>stages. TryCompile std_sort env args = (Inr None, stages) \<longrightarrow>
      Compile std_sort env args
        = (Inr (delegate_Compile_result env args), stages @ [delegate_Compile args]))
   \<and> (\<forall>compiled stages. TryCompile std_sort env args = (Inr (Some compiled), stages) \<longrightarrow>
      Compile std_sort env args = (Inr (Some compiled), stages)
      \<and> delegate_Compile args \<notin> set stages)
   \<and> (fst (TryCompile std_sort env args) = Inr None \<longrightarrow>
      (fst (Compile std_sort env args) = Inr None \<longleftrightarrow> delegate_Compile_result env args = None))"
proof -
  have "delegate_Compile args \<notin> set stages"
    if "TryCompile std_sort env args = (Inr (Some compiled), stages)" for compiled stages
    using TryCompile_no_delegate [of args std_sort env args] that by simp
  then show ?thesis
    by (auto simp add: Compile_def split: prod.splits sum.splits option.splits)
qed

theorem Compile_delegates_witness:
  "TryCompile insertion_sort
      (sample_collaborators (kOtherInstructionSet 0) True ''Main.run'' (Some (sample_method kX86 0)))
      sample_args = (Inr None, [])
   \<and> Compile insertion_sort
      (sample_collaborators (kOtherInstructionSet 0) True ''Main.run'' (Some (sample_method kX86 0)))
      sample_args = (Inr (Some (sample_method kX86 0)), [delegate_Compile sample_args])
   \<and> TryCompile insertion_sort (sample_collaborators kX86 True ''Main.run'' None) sample_args
       = (Inr (Some (sample_method kX86 12)),
          [BuildGraph, CodeGenerator_Create kX86, DumpGraph builder,
           BuildDominatorTree, TransformToSSA, DumpGraph ssa, FindNaturalLoops,
           SsaRedundantPhiElimination, SsaDeadPhiElimination, SsaLivenessAnalysis,
           DumpGraph kLivenessPassName, AllocateRegisters,
           DumpGraph kRegisterAllocatorPassName, CompileOptimized,
           BuildMappingTable, BuildVMapTable, BuildNativeGCMap])
   \<and> fst (Compile insertion_sort (sample_collaborators kX86 True ''Main.run'' None) sample_args)
       = Inr (Some (sample_method kX86 12))"
proof -
  let ?e1 = "sample_collaborators (kOtherInstructionSet 0) True ''Main.run'' (Some (sample_method kX86 0))"
  let ?e2 = "sample_collaborators kX86 True ''Main.run'' None"
  have a: "TryCompile insertion_sort ?e1 sample_args = (Inr None, [])"
    by (simp add: TryCompile_def sample_collaborators_def)
  have b: "TryCompile insertion_sort ?e2 sample_args
       = (Inr (Some (sample_method kX86 12)),
          [BuildGraph, CodeGenerator_Create kX86, DumpGraph builder,
           BuildDominatorTree, TransformToSSA, DumpGraph ssa, FindNaturalLoops,
           SsaRedundantPhiElimination, SsaDeadPhiElimination, SsaLivenessAnalysis,
           DumpGraph kLivenessPassName, AllocateRegisters,
           DumpGraph kRegisterAllocatorPassName, CompileOptimized,
           BuildMappingTable, BuildVMapTable, BuildNativeGCMap])"
    by (simp add: TryCompile_def sample_collaborators_def optimized_stages_def package_def
        SwapAllocCompiledMethod_def Arrange_def sample_method_def)
  have c: "delegate_Compile_result ?e1 sample_args = Some (sample_method kX86 0)"
    by (simp add: sample_collaborators_def)
  from Compile_delegates [of insertion_sort ?e1 sample_args] a c
  have d: "Compile insertion_sort ?e1 sample_args
      = (Inr (Some (sample_method kX86 0)), [delegate_Compile sample_args])"
    by simp
  from Compile_delegates [of insertion_sort ?e2 sample_args] b
  have e: "fst (Compile insertion_sort ?e2 sample_args) = Inr (Some (sample_method kX86 12))"
    by simp
  from a b d e show ?thesis by simp
qed

text \<open>
  The claim as the specification words it fails when the delegate has no result either:
  on an unsupported instruction set \<open>TryCompile\<close> returns \<^verbatim>\<open>nullptr\<close>, the delegate is
  invoked, and \<open>Compile\<close> returns the delegate's \<^verbatim>\<open>nullptr\<close>.
\<close>

theorem Compile_delegates_counterexample:
  "fst (TryCompile insertion_sort
      (sample_collaborators (kOtherInstructionSet 0) True ''Main.run'' None) sample_args) = Inr None
   \<and> Compile insertion_sort
      (sample_collaborators (kOtherInstructionSet 0) True ''Main.run'' None) sample_args
       = (Inr None, [delegate_Compile sample_args])"
  by (simp add: Compile_def TryCompile_def sample_collaborators_def)

subsection \<open>Frame size and spill masks\<close>

text \<open>
  Claim C7, as the code has it. A compiled method that \<open>TryCompile\<close> returns, in
  optimized or in baseline mode, carries the frame size and the core spill mask that the
  code generator reports after the stages have run, and the code of the allocator.
  Its floating-point spill mask is 0: \<open>TryCompile\<close> passes the constant, not a mask of
  the code generator.
\<close>

theorem TryCompile_frame_and_spill_masks:
  assumes "isa = (if driver_GetInstructionSet env = kArm then kThumb2 else driver_GetInstructionSet env)"
    and "builder_BuildGraph env args = Some graph"
    and "CodeGenerator_Create_result env graph isa = Some codegen"
    and "s = fold (run env)
               (if CanAllocateRegistersFor env (run env (DumpGraph builder) codegen) isa
                then optimized_stages else baseline_stages)
               (run env (DumpGraph builder) codegen)"
    and "TryCompile std_sort env args = (Inr (Some compiled), stages)"
  shows "GetFrameSizeInBytes compiled = codegen_GetFrameSize env s
       \<and> GetCoreSpillMask compiled = codegen_GetCoreSpillMask env s
       \<and> GetFpSpillMask compiled = 0
       \<and> quick_code compiled = allocator_GetMemory env s
       \<and> (CompileOptimized \<in> set stages \<or> CompileBaseline \<in> set stages)"
proof -
  have "isa = kX86 \<or> isa = kX86_64 \<or> isa = kThumb2"
    using TryCompile_unsupported [OF assms(1), of std_sort args] assms(5) by auto
  from TryCompile_supported [OF assms(1) this, of std_sort args] assms(2-5)
  show ?thesis
    by (auto simp add: package_fields optimized_stages_def baseline_stages_def split: if_splits)
qed

theorem TryCompile_frame_and_spill_masks_witness:
  "TryCompile insertion_sort (sample_collaborators kX86_64 True ''Main.run'' None) sample_args
       = (Inr (Some (sample_method kX86_64 12)),
          [BuildGraph, CodeGenerator_Create kX86_64, DumpGraph builder,
           BuildDominatorTree, TransformToSSA, DumpGraph ssa, FindNaturalLoops,
           SsaRedundantPhiElimination, SsaDeadPhiElimination, SsaLivenessAnalysis,
           DumpGraph kLivenessPassName, AllocateRegisters,
           DumpGraph kRegisterAllocatorPassName, CompileOptimized,
           BuildMappingTable, BuildVMapTable, BuildNativeGCMap])
   \<and> GetFrameSizeInBytes (sample_method kX86_64 12) = 28
   \<and> GetCoreSpillMask (sample_method kX86_64 12) = 32
   \<and> GetFpSpillMask (sample_method kX86_64 12) = 0"
proof -
  let ?env = "sample_collaborators kX86_64 True ''Main.run'' None"
  have a: "kX86_64 = (if driver_GetInstructionSet ?env = kArm then kThumb2 else driver_GetInstructionSet ?env)"
    by (simp add: sample_collaborators_def)
  have b: "builder_BuildGraph ?env sample_args = Some 0" by (simp add: sample_collaborators_def)
  have c: "CodeGenerator_Create_result ?env 0 kX86_64 = Some 0" by (simp add: sample_collaborators_def)
  have d: "12 = fold (run ?env)
               (if CanAllocateRegistersFor ?env (run ?env (DumpGraph builder) 0) kX86_64
                then optimized_stages else baseline_stages)
               (run ?env (DumpGraph builder) 0)"
    by (simp add: sample_collaborators_def optimized_stages_def)
  have e: "TryCompile insertion_sort ?env sample_args
       = (Inr (Some (sample_method kX86_64 12)),
          [BuildGraph, CodeGenerator_Create kX86_64, DumpGraph builder,
           BuildDominatorTree, TransformToSSA, DumpGraph ssa, FindNaturalLoops,
           SsaRedundantPhiElimination, SsaDeadPhiElimination, SsaLivenessAnalysis,
           DumpGraph kLivenessPassName, AllocateRegisters,
           DumpGraph kRegisterAllocatorPassName, CompileOptimized,
           BuildMappingTable, BuildVMapTable, BuildNativeGCMap])"
    by (simp add: TryCompile_def sample_collaborators_def optimized_stages_def package_def
        SwapAllocCompiledMethod_def Arrange_def sample_method_def)
  from TryCompile_frame_and_spill_masks [OF a b c d e] e
  show ?thesis by (simp add: sample_collaborators_def)
qed

text \<open>
  The claim as the specification words it fails on the sample configuration, whose code
  generator has the floating-point callee-save mask 3: the accessor of the compiled
  method returns 0.
\<close>

theorem TryCompile_frame_and_spill_masks_counterexample:
  "fst (TryCompile insertion_sort (sample_collaborators kX86 False ''Main.run'' None) sample_args)
       = Inr (Some (sample_method kX86 8))
   \<and> GetFpSpillMask (sample_method kX86 8) = 0
   \<and> codegen_FpSpillMask (sample_collaborators kX86 False ''Main.run'' None) 8 = 3
   \<and> GetFpSpillMask (sample_method kX86 8)
       \<noteq> codegen_FpSpillMask (sample_collaborators kX86 False ''Main.run'' None) 8"
  by (simp add: TryCompile_def sample_collaborators_def baseline_stages_def package_def
      SwapAllocCompiledMethod_def Arrange_def sample_method_def GetFpSpillMask_def)

subsection \<open>ARM is compiled as Thumb2\<close>

text \<open>
  Claim C10. For a request that targets ARM, \<open>TryCompile\<close> does exactly what it does for
  the same request targeting Thumb2; a compiled method it returns carries the Thumb2
  tag, and the code generator was created for Thumb2, not for ARM.
\<close>

theorem TryCompile_Arm_is_Thumb2:
  assumes "driver_GetInstructionSet env = kArm"
  shows "TryCompile std_sort env args
           = TryCompile std_sort (env\<lparr>driver_GetInstructionSet := kThumb2\<rparr>) args
       \<and> (\<forall>compiled stages. TryCompile std_sort env args = (Inr (Some compiled), stages) \<longrightarrow>
            GetInstructionSet compiled = kThumb2
            \<and> CodeGenerator_Create kThumb2 \<in> set stages
            \<and> CodeGenerator_Create kArm \<notin> set stages)"
proof -
  have isa: "kThumb2 = (if driver_GetInstructionSet env = kArm then kThumb2 else driver_GetInstructionSet env)"
    using assms by simp
  have ok: "kThumb2 = kX86 \<or> kThumb2 = kX86_64 \<or> kThumb2 = kThumb2" by simp
  have isa': "kThumb2 = (if driver_GetInstructionSet (env\<lparr>driver_GetInstructionSet := kThumb2\<rparr>) = kArm
      then kThumb2 else driver_GetInstructionSet (env\<lparr>driver_GetInstructionSet := kThumb2\<rparr>))"
    by simp
  have 1: "TryCompile std_sort env args
           = TryCompile std_sort (env\<lparr>driver_GetInstructionSet := kThumb2\<rparr>) args"
    by (simp add: TryCompile_supported [OF isa ok] TryCompile_supported [OF isa' ok] package_def
        cong: option.case_cong if_cong)
  have 2: "GetInstructionSet compiled = kThumb2
            \<and> CodeGenerator_Create kThumb2 \<in> set stages
            \<and> CodeGenerator_Create kArm \<notin> set stages"
    if "TryCompile std_sort env args = (Inr (Some compiled), stages)" for compiled stages
    using that unfolding TryCompile_supported [OF isa ok]
    by (auto simp add: package_fields optimized_stages_def baseline_stages_def
        split: option.splits if_splits)
  from 1 2 show ?thesis by blast
qed

theorem TryCompile_Arm_is_Thumb2_witness:
  "driver_GetInstructionSet (sample_collaborators kArm True ''Main.run'' None) = kArm
   \<and> fst (TryCompile insertion_sort (sample_collaborators kArm True ''Main.run'' None) sample_args)
       = Inr (Some (sample_method kThumb2 12))
   \<and> GetInstructionSet (sample_method kThumb2 12) = kThumb2"
proof -
  let ?env = "sample_collaborators kArm True ''Main.run'' None"
  have a: "driver_GetInstructionSet ?env = kArm" by (simp add: sample_collaborators_def)
  have e: "TryCompile insertion_sort ?env sample_args
       = (Inr (Some (sample_method kThumb2 12)),
          [BuildGraph, CodeGenerator_Create kThumb2, DumpGraph builder,
           BuildDominatorTree, TransformToSSA, DumpGraph ssa, FindNaturalLoops,
           SsaRedundantPhiElimination, SsaDeadPhiElimination, SsaLivenessAnalysis,
           DumpGraph kLivenessPassName, AllocateRegisters,
           DumpGraph kRegisterAllocatorPassName, CompileOptimized,
           BuildMappingTable, BuildVMapTable, BuildNativeGCMap])"
    by (simp add: TryCompile_def sample_collaborators_def optimized_stages_def package_def
        SwapAllocCompiledMethod_def Arrange_def sample_method_def)
  from TryCompile_Arm_is_Thumb2 [OF a, of insertion_sort sample_args] e
  have "GetInstructionSet (sample_method kThumb2 12) = kThumb2" by blast
  with a e show ?thesis by simp
qed

end
